theory Spec2Isabelle
  imports Main "HOL-Library.Sublist"
begin

section \<open>Data shared by the lessons\<close>

text \<open>
  A locator is the pair the source passes around, for example \<^verbatim>\<open>(By.NAME, "q")\<close>.
  An element is the value a wait or a query hands back; the source reads its
  \<^verbatim>\<open>.text\<close> attribute and calls methods on it. The attribute is a field of the
  value, the method calls go to the browser.
\<close>

datatype strategy = ID | NAME | CSS_SELECTOR | LINK_TEXT | TAG_NAME

type_synonym locator = "strategy \<times> string"

record element =
  handle :: nat
  text_attr :: string

datatype exn =
    TimeoutException
  | NoSuchElementException
  | StaleElementReferenceException
  | WebDriverException
  | AttributeError
  | TypeError

section \<open>Page objects (01_page_object_model.py)\<close>

text \<open>
  The expected conditions the page classes hand to \<^verbatim>\<open>self.wait.until\<close>; the last
  one is the lambda of \<^verbatim>\<open>wait_for_page_load\<close>.
\<close>

datatype condition =
    presence_of_element_located locator
  | presence_of_all_elements_located locator
  | element_to_be_clickable locator
  | visibility_of_element_located locator
  | document_ready_state_complete

text \<open>
  What a run of a page-object method did besides returning: each call of
  \<^verbatim>\<open>self.wait.until\<close> with the exception it raised (if any), and each call of
  \<^verbatim>\<open>time.sleep\<close> with its number of seconds.
\<close>

datatype event = Awaited condition "exn option" | Slept nat

text \<open>
  The browser and the Selenium wait are outside the repository: they are the
  parameter \<open>drv\<close>, a record of functions on a browser state \<open>'w\<close>. Every call may
  raise and may change the browser. \<^verbatim>\<open>until\<close> is given by the type of value the
  condition yields (one element, a list of elements, a truth value).
\<close>

record 'w webdriver =
  until_element :: "condition \<Rightarrow> 'w \<Rightarrow> (exn + element) \<times> 'w"
  until_elements :: "condition \<Rightarrow> 'w \<Rightarrow> (exn + element list) \<times> 'w"
  until_true :: "condition \<Rightarrow> 'w \<Rightarrow> (exn + bool) \<times> 'w"
  click :: "element \<Rightarrow> 'w \<Rightarrow> (exn + unit) \<times> 'w"
  clear :: "element \<Rightarrow> 'w \<Rightarrow> (exn + unit) \<times> 'w"
  send_keys :: "element \<Rightarrow> string \<Rightarrow> 'w \<Rightarrow> (exn + unit) \<times> 'w"
  is_displayed :: "element \<Rightarrow> 'w \<Rightarrow> (exn + bool) \<times> 'w"
  get :: "string \<Rightarrow> 'w \<Rightarrow> (exn + unit) \<times> 'w"
  sleep :: "nat \<Rightarrow> 'w \<Rightarrow> 'w"

text \<open>
  A method is a function from the browser state to its result (\<open>Inl\<close> the raised
  exception), the events of the run and the browser state it leaves.
\<close>

type_synonym ('w, 'a) page_method = "'w \<Rightarrow> (exn + 'a) \<times> event list \<times> 'w"

definition returns :: "'a \<Rightarrow> ('w, 'a) page_method" where
  "returns x w = (Inr x, [], w)"

text \<open>Statement sequencing: an exception ends the method, keeping what was done.\<close>

definition and_then :: "('w, 'a) page_method \<Rightarrow> ('a \<Rightarrow> ('w, 'b) page_method) \<Rightarrow> ('w, 'b) page_method" where
  "and_then m f w =
     (case m w of
        (Inl e, evs, w1) \<Rightarrow> (Inl e, evs, w1)
      | (Inr x, evs, w1) \<Rightarrow> (case f x w1 of (r, evs2, w2) \<Rightarrow> (r, evs @ evs2, w2)))"

definition call :: "('w \<Rightarrow> (exn + 'a) \<times> 'w) \<Rightarrow> ('w, 'a) page_method" where
  "call f w = (case f w of (r, w1) \<Rightarrow> (r, [], w1))"

definition raised :: "exn + 'a \<Rightarrow> exn option" where
  "raised r = (case r of Inl e \<Rightarrow> Some e | Inr _ \<Rightarrow> None)"

definition wait_until :: "(condition \<Rightarrow> 'w \<Rightarrow> (exn + 'a) \<times> 'w) \<Rightarrow> condition \<Rightarrow> ('w, 'a) page_method" where
  "wait_until u c w = (case u c w of (r, w1) \<Rightarrow> (r, [Awaited c (raised r)], w1))"

definition time_sleep :: "'w webdriver \<Rightarrow> nat \<Rightarrow> ('w, unit) page_method" where
  "time_sleep drv n w = (Inr (), [Slept n], sleep drv n w)"

subsection \<open>BasePage\<close>

definition find_element :: "'w webdriver \<Rightarrow> locator \<Rightarrow> ('w, element) page_method" where
  "find_element drv loc = wait_until (until_element drv) (presence_of_element_located loc)"

definition find_elements :: "'w webdriver \<Rightarrow> locator \<Rightarrow> ('w, element list) page_method" where
  "find_elements drv loc = wait_until (until_elements drv) (presence_of_all_elements_located loc)"

definition click_element :: "'w webdriver \<Rightarrow> locator \<Rightarrow> ('w, unit) page_method" where
  "click_element drv loc =
     and_then (wait_until (until_element drv) (element_to_be_clickable loc))
       (\<lambda>el. call (click drv el))"

definition type_text :: "'w webdriver \<Rightarrow> locator \<Rightarrow> string \<Rightarrow> ('w, unit) page_method" where
  "type_text drv loc txt =
     and_then (find_element drv loc)
       (\<lambda>el. and_then (call (clear drv el)) (\<lambda>_. call (send_keys drv el txt)))"

definition get_text :: "'w webdriver \<Rightarrow> locator \<Rightarrow> ('w, string) page_method" where
  "get_text drv loc = and_then (find_element drv loc) (\<lambda>el. returns (text_attr el))"

text \<open>
  \<^verbatim>\<open>is_element_visible\<close> wraps its body in \<^verbatim>\<open>try: ... except: return False\<close>: a
  bare \<^verbatim>\<open>except\<close> catches every exception.
\<close>

definition is_element_visible :: "'w webdriver \<Rightarrow> locator \<Rightarrow> ('w, bool) page_method" where
  "is_element_visible drv loc w =
     (case and_then (wait_until (until_element drv) (visibility_of_element_located loc))
             (\<lambda>el. call (is_displayed drv el)) w of
        (Inl e, evs, w1) \<Rightarrow> (Inr False, evs, w1)
      | (Inr b, evs, w1) \<Rightarrow> (Inr b, evs, w1))"

definition wait_for_page_load :: "'w webdriver \<Rightarrow> ('w, unit) page_method" where
  "wait_for_page_load drv =
     and_then (wait_until (until_true drv) document_ready_state_complete) (\<lambda>_. returns ())"

subsection \<open>GooglePage\<close>

definition google_SEARCH_BOX :: locator where "google_SEARCH_BOX = (NAME, ''q'')"
definition google_SEARCH_BUTTON :: locator where "google_SEARCH_BUTTON = (NAME, ''btnK'')"
definition google_SEARCH_RESULTS :: locator where "google_SEARCH_RESULTS = (CSS_SELECTOR, ''h3'')"
definition google_GMAIL_LINK :: locator where "google_GMAIL_LINK = (LINK_TEXT, ''Gmail'')"
definition google_IMAGES_LINK :: locator where "google_IMAGES_LINK = (LINK_TEXT, ''Images'')"

definition navigate_to :: "'w webdriver \<Rightarrow> string \<Rightarrow> ('w, unit) page_method" where
  "navigate_to drv url = and_then (call (get drv url)) (\<lambda>_. wait_for_page_load drv)"

definition google_navigate_to :: "'w webdriver \<Rightarrow> ('w, unit) page_method" where
  "google_navigate_to drv = navigate_to drv ''https://www.google.com''"

definition google_search :: "'w webdriver \<Rightarrow> string \<Rightarrow> ('w, unit) page_method" where
  "google_search drv query =
     and_then (type_text drv google_SEARCH_BOX query)
       (\<lambda>_. and_then (click_element drv google_SEARCH_BUTTON) (\<lambda>_. time_sleep drv 2))"

text \<open>
  \<^verbatim>\<open>[result.text for result in results if result.text]\<close>: a string is truthy
  when it is not empty.
\<close>

definition texts_of :: "element list \<Rightarrow> string list" where
  "texts_of results = map text_attr (filter (\<lambda>result. text_attr result \<noteq> []) results)"

definition get_search_results :: "'w webdriver \<Rightarrow> ('w, string list) page_method" where
  "get_search_results drv =
     and_then (find_elements drv google_SEARCH_RESULTS) (\<lambda>results. returns (texts_of results))"

definition click_gmail :: "'w webdriver \<Rightarrow> ('w, unit) page_method" where
  "click_gmail drv = click_element drv google_GMAIL_LINK"

definition click_images :: "'w webdriver \<Rightarrow> ('w, unit) page_method" where
  "click_images drv = click_element drv google_IMAGES_LINK"

definition google_is_search_box_visible :: "'w webdriver \<Rightarrow> ('w, bool) page_method" where
  "google_is_search_box_visible drv = is_element_visible drv google_SEARCH_BOX"

subsection \<open>FacebookPage\<close>

definition EMAIL_FIELD :: locator where "EMAIL_FIELD = (NAME, ''email'')"
definition PASSWORD_FIELD :: locator where "PASSWORD_FIELD = (NAME, ''pass'')"
definition LOGIN_BUTTON :: locator where "LOGIN_BUTTON = (NAME, ''login'')"
definition FORGOT_PASSWORD_LINK :: locator where
  "FORGOT_PASSWORD_LINK = (LINK_TEXT, ''Forgotten password?'')"
definition CREATE_ACCOUNT_LINK :: locator where
  "CREATE_ACCOUNT_LINK = (LINK_TEXT, ''Create new account'')"

definition facebook_navigate_to :: "'w webdriver \<Rightarrow> ('w, unit) page_method" where
  "facebook_navigate_to drv = navigate_to drv ''https://www.facebook.com''"

definition enter_email :: "'w webdriver \<Rightarrow> string \<Rightarrow> ('w, unit) page_method" where
  "enter_email drv email = type_text drv EMAIL_FIELD email"

definition enter_password :: "'w webdriver \<Rightarrow> string \<Rightarrow> ('w, unit) page_method" where
  "enter_password drv password = type_text drv PASSWORD_FIELD password"

definition click_login :: "'w webdriver \<Rightarrow> ('w, unit) page_method" where
  "click_login drv = click_element drv LOGIN_BUTTON"

definition login :: "'w webdriver \<Rightarrow> string \<Rightarrow> string \<Rightarrow> ('w, unit) page_method" where
  "login drv email password =
     and_then (enter_email drv email)
       (\<lambda>_. and_then (enter_password drv password)
          (\<lambda>_. and_then (click_login drv) (\<lambda>_. time_sleep drv 2)))"

definition click_forgot_password :: "'w webdriver \<Rightarrow> ('w, unit) page_method" where
  "click_forgot_password drv = click_element drv FORGOT_PASSWORD_LINK"

definition click_create_account :: "'w webdriver \<Rightarrow> ('w, unit) page_method" where
  "click_create_account drv = click_element drv CREATE_ACCOUNT_LINK"

definition is_email_field_visible :: "'w webdriver \<Rightarrow> ('w, bool) page_method" where
  "is_email_field_visible drv = is_element_visible drv EMAIL_FIELD"

subsection \<open>AmazonPage\<close>

definition amazon_SEARCH_BOX :: locator where "amazon_SEARCH_BOX = (ID, ''twotabsearchtextbox'')"
definition amazon_SEARCH_BUTTON :: locator where
  "amazon_SEARCH_BUTTON = (ID, ''nav-search-submit-button'')"
definition amazon_SEARCH_RESULTS :: locator where
  "amazon_SEARCH_RESULTS = (CSS_SELECTOR, ''h2 a span'')"
definition CART_BUTTON :: locator where "CART_BUTTON = (ID, ''nav-cart'')"
definition ACCOUNT_LINK :: locator where "ACCOUNT_LINK = (ID, ''nav-link-accountList'')"

definition amazon_navigate_to :: "'w webdriver \<Rightarrow> ('w, unit) page_method" where
  "amazon_navigate_to drv = navigate_to drv ''https://www.amazon.com''"

definition search_product :: "'w webdriver \<Rightarrow> string \<Rightarrow> ('w, unit) page_method" where
  "search_product drv product_name =
     and_then (type_text drv amazon_SEARCH_BOX product_name)
       (\<lambda>_. and_then (click_element drv amazon_SEARCH_BUTTON) (\<lambda>_. time_sleep drv 2))"

definition get_product_results :: "'w webdriver \<Rightarrow> ('w, string list) page_method" where
  "get_product_results drv =
     and_then (find_elements drv amazon_SEARCH_RESULTS) (\<lambda>results. returns (texts_of results))"

definition click_cart :: "'w webdriver \<Rightarrow> ('w, unit) page_method" where
  "click_cart drv = click_element drv CART_BUTTON"

definition click_account :: "'w webdriver \<Rightarrow> ('w, unit) page_method" where
  "click_account drv = click_element drv ACCOUNT_LINK"

definition amazon_is_search_box_visible :: "'w webdriver \<Rightarrow> ('w, bool) page_method" where
  "amazon_is_search_box_visible drv = is_element_visible drv amazon_SEARCH_BOX"

subsection \<open>A browser for running the page objects on concrete inputs\<close>

text \<open>
  A browser whose state is the number of seconds slept so far. Its searches find
  three headings, the second with no text; nothing else ever appears, so every
  other wait times out.
\<close>

definition heading_elements :: "element list" where
  "heading_elements =
     [\<lparr>handle = 1, text_attr = ''Selenium''\<rparr>,
      \<lparr>handle = 2, text_attr = ''''\<rparr>,
      \<lparr>handle = 3, text_attr = ''WebDriver''\<rparr>]"

definition headings_only :: "nat webdriver" where
  "headings_only =
     \<lparr>until_element = (\<lambda>c w. (Inl TimeoutException, w)),
      until_elements = (\<lambda>c w. (Inr heading_elements, w)),
      until_true = (\<lambda>c w. (Inl TimeoutException, w)),
      click = (\<lambda>el w. (Inr (), w)),
      clear = (\<lambda>el w. (Inr (), w)),
      send_keys = (\<lambda>el txt w. (Inr (), w)),
      is_displayed = (\<lambda>el w. (Inr True, w)),
      get = (\<lambda>url w. (Inr (), w)),
      sleep = (\<lambda>n w. w + n)\<rparr>"

text \<open>A browser in which every wait succeeds at once.\<close>

definition all_present :: "nat webdriver" where
  "all_present =
     \<lparr>until_element = (\<lambda>c w. (Inr \<lparr>handle = 1, text_attr = ''''\<rparr>, w)),
      until_elements = (\<lambda>c w. (Inr heading_elements, w)),
      until_true = (\<lambda>c w. (Inr True, w)),
      click = (\<lambda>el w. (Inr (), w)),
      clear = (\<lambda>el w. (Inr (), w)),
      send_keys = (\<lambda>el txt w. (Inr (), w)),
      is_displayed = (\<lambda>el w. (Inr True, w)),
      get = (\<lambda>url w. (Inr (), w)),
      sleep = (\<lambda>n w. w + n)\<rparr>"

subsection \<open>What a run shows\<close>

text \<open>
  A run propagates the failures of its awaited steps when every exception raised
  by a wait during the run is the exception the method itself raised.
\<close>

definition propagates_failures :: "(exn + 'a) \<times> event list \<times> 'w \<Rightarrow> bool" where
  "propagates_failures run =
     (case run of (r, evs, w) \<Rightarrow>
        list_all (\<lambda>ev. case ev of Awaited c (Some e) \<Rightarrow> raised r = Some e | _ \<Rightarrow> True) evs)"

text \<open>The durations of the calls of \<^verbatim>\<open>time.sleep\<close> made during a run, in order.\<close>

definition direct_sleeps :: "(exn + 'a) \<times> event list \<times> 'w \<Rightarrow> nat list" where
  "direct_sleeps run =
     (case run of (r, evs, w) \<Rightarrow>
        concat (map (\<lambda>ev. case ev of Slept n \<Rightarrow> [n] | _ \<Rightarrow> []) evs))"

section \<open>Custom wait conditions (01_wait_strategies.py)\<close>

text \<open>
  A custom condition is a closure called with the driver on every poll. What the
  driver answers at that moment is the parameter \<open>d\<close>: a record of the queries the
  conditions make. Each query may raise.
\<close>

record driver =
  driver_find_element :: "locator \<Rightarrow> exn + element"
  driver_find_elements :: "locator \<Rightarrow> exn + element list"
  get_attribute :: "element \<Rightarrow> string \<Rightarrow> exn + string option"
  is_enabled :: "element \<Rightarrow> exn + bool"
  element_is_displayed :: "element \<Rightarrow> exn + bool"

text \<open>
  \<^verbatim>\<open>text in element.get_attribute("value")\<close>: substring test on the attribute;
  the attribute of an element that has none is \<^verbatim>\<open>None\<close>, and \<^verbatim>\<open>in\<close> on
  \<^verbatim>\<open>None\<close> raises \<^verbatim>\<open>TypeError\<close>.
\<close>

definition element_has_text :: "locator \<Rightarrow> string \<Rightarrow> driver \<Rightarrow> exn + bool" where
  "element_has_text loc txt d =
     (case driver_find_element d loc of
        Inl e \<Rightarrow> Inl e
      | Inr el \<Rightarrow>
          (case get_attribute d el ''value'' of
             Inl e \<Rightarrow> Inl e
           | Inr None \<Rightarrow> Inl TypeError
           | Inr (Some v) \<Rightarrow> Inr (sublist txt v)))"

definition page_has_minimum_links :: "nat \<Rightarrow> driver \<Rightarrow> exn + bool" where
  "page_has_minimum_links min_links d =
     (case driver_find_elements d (TAG_NAME, ''a'') of
        Inl e \<Rightarrow> Inl e
      | Inr links \<Rightarrow> Inr (length links \<ge> min_links))"

text \<open>
  \<^verbatim>\<open>element.is_enabled() and element.is_displayed()\<close>: the second call is made
  only when the first returned true.
\<close>

definition element_is_enabled_and_visible :: "locator \<Rightarrow> driver \<Rightarrow> exn + bool" where
  "element_is_enabled_and_visible loc d =
     (case driver_find_element d loc of
        Inl e \<Rightarrow> Inl e
      | Inr el \<Rightarrow>
          (case is_enabled d el of
             Inl e \<Rightarrow> Inl e
           | Inr b \<Rightarrow> if b then element_is_displayed d el else Inr False))"

text \<open>
  A page on which the locator of the search box resolves to two different
  elements; \<^verbatim>\<open>find_element\<close> hands back the first of them.
\<close>

definition first_box :: element where
  "first_box = \<lparr>handle = 1, text_attr = ''''\<rparr>"

definition second_box :: element where
  "second_box = \<lparr>handle = 2, text_attr = ''''\<rparr>"

definition two_search_boxes :: driver where
  "two_search_boxes =
     \<lparr>driver_find_element = (\<lambda>loc. Inr first_box),
      driver_find_elements = (\<lambda>loc. Inr [first_box, second_box]),
      get_attribute = (\<lambda>el name.
         Inr (if name = ''value''
              then Some (if handle el = 1 then ''Google Search'' else ''Other'')
              else None)),
      is_enabled = (\<lambda>el. Inr True),
      element_is_displayed = (\<lambda>el. Inr (handle el = 1))\<rparr>"

section \<open>The wait engine\<close>

text \<open>
  Modelled from the spec: the data of sections 3, 6 and 7 (error kinds, condition
  outcomes, wait specifications, poll results, the errors of the engine). None of
  them is declared in the source, which passes plain numbers and closures to
  Selenium.
\<close>

datatype error_kind = NotFound | StaleReference | SessionLost | InvalidLocator | Other

datatype 'a condition_outcome = Pending | Satisfied 'a | Failed error_kind

text \<open>A predicate evaluates one poll tick on the remote state of that tick.\<close>

type_synonym ('s, 'a) condition_predicate = "'s \<Rightarrow> 'a condition_outcome"

record wait_spec =
  timeout :: nat
  poll_interval :: nat
  ignored_error_kinds :: "error_kind set"
  message :: "string option"

record 'a poll_result =
  outcome :: "'a condition_outcome"
  elapsed :: nat
  attempt_count :: nat

record diagnostic =
  awaited :: string
  waited :: nat
  attempts_made :: nat
  caller_message :: "string option"

datatype wait_error =
    TimeoutExceeded diagnostic
  | CancelledByCaller
  | Propagated error_kind

text \<open>
  Simulated time: durations are natural numbers (milliseconds). The remote system
  is given by its state at each instant, the caller's cancellation signal by the
  instants at which it is raised. Evaluating a predicate takes no time; a sleep
  takes exactly the poll interval.
\<close>

record 's simulation =
  remote_at :: "nat \<Rightarrow> 's"
  cancelled_at :: "nat \<Rightarrow> bool"

text \<open>
  Modelled from the spec: the polling loop behind \<^verbatim>\<open>awaitCondition\<close>. The source
  only calls Selenium's \<^verbatim>\<open>WebDriverWait(...).until(...)\<close>, whose body is not in the
  repository. The loop follows section 4.1 step by step: evaluate the predicate
  once; Satisfied returns the result with elapsed time and attempt count; Failed
  with a kind outside the ignorable set is propagated at once; otherwise a raised
  cancellation signal stops with CancelledByCaller; otherwise an elapsed time that
  already exceeds the timeout stops with TimeoutExceeded; otherwise sleep for the
  poll interval and retry. The loop need not end (a poll interval of zero), so its
  result is optional; it comes with the clock at the moment of return.
\<close>

partial_function (option) poll_loop ::
  "'s simulation \<Rightarrow> string \<times> ('s, 'a) condition_predicate \<Rightarrow> wait_spec \<Rightarrow> nat \<Rightarrow> nat \<Rightarrow> nat
     \<Rightarrow> ((wait_error + 'a poll_result) \<times> nat) option"
where
  "poll_loop sim predicateFactory spec start attempts now =
     (let out = snd predicateFactory (remote_at sim now);
          n = attempts + 1;
          el = now - start;
          diag = \<lparr>awaited = fst predicateFactory, waited = el, attempts_made = n,
                  caller_message = message spec\<rparr>
      in case out of
           Satisfied v \<Rightarrow> Some (Inr \<lparr>outcome = out, elapsed = el, attempt_count = n\<rparr>, now)
         | Failed k \<Rightarrow>
             if k \<notin> ignored_error_kinds spec then Some (Inl (Propagated k), now)
             else if cancelled_at sim now then Some (Inl CancelledByCaller, now)
             else if el > timeout spec then Some (Inl (TimeoutExceeded diag), now)
             else poll_loop sim predicateFactory spec start n (now + poll_interval spec)
         | Pending \<Rightarrow>
             if cancelled_at sim now then Some (Inl CancelledByCaller, now)
             else if el > timeout spec then Some (Inl (TimeoutExceeded diag), now)
             else poll_loop sim predicateFactory spec start n (now + poll_interval spec))"

declare poll_loop.simps [code]

text \<open>
  Modelled from the spec: \<^verbatim>\<open>awaitCondition(predicateFactory, spec)\<close> of section 4.1
  records the start time and enters the loop with no attempt made. The predicate
  factory is the description used in diagnostics and the predicate itself.
\<close>

definition awaitCondition ::
  "'s simulation \<Rightarrow> string \<times> ('s, 'a) condition_predicate \<Rightarrow> wait_spec \<Rightarrow> nat
     \<Rightarrow> ((wait_error + 'a poll_result) \<times> nat) option"
where
  "awaitCondition sim predicateFactory spec now = poll_loop sim predicateFactory spec now 0 now"

text \<open>An outcome that lets the loop go on: Pending, or Failed with an ignorable kind.\<close>

definition retryable :: "wait_spec \<Rightarrow> 'a condition_outcome \<Rightarrow> bool" where
  "retryable spec out =
     (case out of Pending \<Rightarrow> True | Satisfied v \<Rightarrow> False | Failed k \<Rightarrow> k \<in> ignored_error_kinds spec)"

definition is_satisfied :: "'a condition_outcome \<Rightarrow> bool" where
  "is_satisfied out = (case out of Satisfied v \<Rightarrow> True | _ \<Rightarrow> False)"

text \<open>
  Modelled from the spec: \<^verbatim>\<open>allOf\<close> of section 4.2, absent from the source (whose
  only conjunction is the hand-written \<^verbatim>\<open>element_is_enabled_and_visible\<close>). Every
  child is evaluated on the remote state of the current tick. The spec fixes when
  the composition is Satisfied; for the other outcomes the first child in order
  that is not Satisfied decides, as the short-circuit of the hand-written
  conjunction does.
\<close>

fun allOf :: "('s, 'a) condition_predicate list \<Rightarrow> ('s, 'a list) condition_predicate" where
  "allOf [] s = Satisfied []"
| "allOf (p # ps) s =
     (case p s of
        Pending \<Rightarrow> Pending
      | Failed k \<Rightarrow> Failed k
      | Satisfied v \<Rightarrow>
          (case allOf ps s of
             Pending \<Rightarrow> Pending
           | Failed k \<Rightarrow> Failed k
           | Satisfied vs \<Rightarrow> Satisfied (v # vs)))"

text \<open>
  Modelled from the spec: \<^verbatim>\<open>presence\<close> of section 4.2 on a remote state that
  answers \<^verbatim>\<open>findAll\<close>: Satisfied when there is at least one match, else Pending.
  It stands for Selenium's \<^verbatim>\<open>presence_of_element_located\<close>, which is not in the
  repository.
\<close>

definition presence :: "locator \<Rightarrow> (locator \<Rightarrow> element list, element) condition_predicate" where
  "presence loc findAll = (case findAll loc of [] \<Rightarrow> Pending | el # _ \<Rightarrow> Satisfied el)"

text \<open>Runs of the engine on concrete inputs.\<close>

definition default_spec :: "nat \<Rightarrow> nat \<Rightarrow> wait_spec" where
  "default_spec T P =
     \<lparr>timeout = T, poll_interval = P, ignored_error_kinds = {NotFound, StaleReference},
      message = None\<rparr>"

definition appears_at :: "nat \<Rightarrow> (locator \<Rightarrow> element list) simulation" where
  "appears_at t =
     \<lparr>remote_at = (\<lambda>now loc. if t \<le> now then [\<lparr>handle = 1, text_attr = ''''\<rparr>] else []),
      cancelled_at = (\<lambda>now. False)\<rparr>"

definition never_appears :: "(locator \<Rightarrow> element list) simulation" where
  "never_appears = \<lparr>remote_at = (\<lambda>now loc. []), cancelled_at = (\<lambda>now. False)\<rparr>"

definition lost_once_present :: "(locator \<Rightarrow> element list, element) condition_predicate" where
  "lost_once_present findAll = (case findAll (NAME, ''q'') of [] \<Rightarrow> Pending | el # _ \<Rightarrow> Failed SessionLost)"

definition session_lost :: "(locator \<Rightarrow> element list, element) condition_predicate" where
  "session_lost findAll = Failed SessionLost"

text \<open>
  A page whose search box is there on tick 0 only and whose button arrives on
  tick 2.
\<close>

definition box_gone_before_button :: "(locator \<Rightarrow> element list) simulation" where
  "box_gone_before_button =
     \<lparr>remote_at = (\<lambda>now loc.
         if loc = (NAME, ''q'') then (if now = 0 then [\<lparr>handle = 1, text_attr = ''''\<rparr>] else [])
         else if loc = (NAME, ''btnK'') then (if 2 \<le> now then [\<lparr>handle = 2, text_attr = ''''\<rparr>] else [])
         else []),
      cancelled_at = (\<lambda>now. False)\<rparr>"

section \<open>The implicit wait policy\<close>

text \<open>
  Modelled from the spec: the implicit wait policy of section 4.3. The source only
  calls Selenium's \<^verbatim>\<open>driver.implicitly_wait(10)\<close> and \<^verbatim>\<open>driver.implicitly_wait(0)\<close>;
  the policy itself is not in the repository. A session holds one duration; zero
  means disabled. A query retries, one time unit at a time, for up to that
  duration before it reports that nothing was found (the empty sequence), and
  returns with the clock at that moment.
\<close>

record session =
  implicit_wait :: nat

text \<open>Modelled from the spec: setting a value replaces the one the session holds.\<close>

definition implicitly_wait :: "nat \<Rightarrow> 'x session_scheme \<Rightarrow> 'x session_scheme" where
  "implicitly_wait d s = s\<lparr>implicit_wait := d\<rparr>"

text \<open>
  Modelled from the spec: a query with \<open>d\<close> time units of retrying left returns
  the matches as soon as there are any, and the empty sequence once \<open>d\<close> is used up.
\<close>

fun retry_query :: "(nat \<Rightarrow> 'e list) \<Rightarrow> nat \<Rightarrow> nat \<Rightarrow> 'e list \<times> nat" where
  "retry_query matches_at 0 now = (matches_at now, now)"
| "retry_query matches_at (Suc d) now =
     (case matches_at now of
        [] \<Rightarrow> retry_query matches_at d (Suc now)
      | el # els \<Rightarrow> (el # els, now))"

text \<open>Modelled from the spec: every query retries for the duration the session holds.\<close>

definition findAll_with_policy :: "'x session_scheme \<Rightarrow> (nat \<Rightarrow> 'e list) \<Rightarrow> nat \<Rightarrow> 'e list \<times> nat" where
  "findAll_with_policy s matches_at now = retry_query matches_at (implicit_wait s) now"

text \<open>What a query sees when the target shows up at instant \<open>t\<close>.\<close>

definition shows_up_at :: "nat \<Rightarrow> nat \<Rightarrow> element list" where
  "shows_up_at t now = (if t \<le> now then [\<lparr>handle = 1, text_attr = ''''\<rparr>] else [])"

section \<open>TestBase (01_page_object_model.py)\<close>

text \<open>
  The attributes of a test instance are a dictionary from names to objects. The
  library calls of \<^verbatim>\<open>setup_method\<close> are parameters: each may raise.
\<close>

datatype pyobject = WebDriver nat | GooglePage nat | FacebookPage nat | AmazonPage nat

type_synonym test_instance = "string \<rightharpoonup> pyobject"

record library =
  ChromeOptions :: "exn + unit"
  install :: "exn + string"
  Chrome :: "string \<Rightarrow> exn + nat"
  execute_script :: "nat \<Rightarrow> exn + unit"
  quit :: "nat \<Rightarrow> exn + unit"

definition setup_method :: "library \<Rightarrow> test_instance \<Rightarrow> (exn + unit) \<times> test_instance" where
  "setup_method lib self =
     (case ChromeOptions lib of
        Inl e \<Rightarrow> (Inl e, self)
      | Inr _ \<Rightarrow>
     (case install lib of
        Inl e \<Rightarrow> (Inl e, self)
      | Inr path \<Rightarrow>
     (case Chrome lib path of
        Inl e \<Rightarrow> (Inl e, self)
      | Inr drv \<Rightarrow>
          (let self1 = self(''driver'' \<mapsto> WebDriver drv) in
           case execute_script lib drv of
             Inl e \<Rightarrow> (Inl e, self1)
           | Inr _ \<Rightarrow>
               (Inr (), self1(''google_page'' \<mapsto> GooglePage drv,
                              ''facebook_page'' \<mapsto> FacebookPage drv,
                              ''amazon_page'' \<mapsto> AmazonPage drv))))))"

definition hasattr :: "test_instance \<Rightarrow> string \<Rightarrow> bool" where
  "hasattr self name = (self name \<noteq> None)"

definition getattr :: "test_instance \<Rightarrow> string \<Rightarrow> exn + pyobject" where
  "getattr self name = (case self name of None \<Rightarrow> Inl AttributeError | Some v \<Rightarrow> Inr v)"

text \<open>Only a driver has a \<^verbatim>\<open>quit\<close> method; the result lists the drivers that were quit.\<close>

definition call_quit :: "library \<Rightarrow> pyobject \<Rightarrow> (exn + unit) \<times> nat list" where
  "call_quit lib obj =
     (case obj of WebDriver drv \<Rightarrow> (quit lib drv, [drv]) | _ \<Rightarrow> (Inl AttributeError, []))"

definition teardown_method :: "library \<Rightarrow> test_instance \<Rightarrow> (exn + unit) \<times> nat list" where
  "teardown_method lib self =
     (if hasattr self ''driver''
      then (case getattr self ''driver'' of
              Inl e \<Rightarrow> (Inl e, [])
            | Inr obj \<Rightarrow> call_quit lib obj)
      else (Inr (), []))"

definition no_chrome :: library where
  "no_chrome =
     \<lparr>ChromeOptions = Inr (), install = Inr ''chromedriver'',
      Chrome = (\<lambda>path. Inl WebDriverException),
      execute_script = (\<lambda>drv. Inr ()), quit = (\<lambda>drv. Inr ())\<rparr>"

text \<open>A machine where Chrome starts but the first script it is sent fails.\<close>

definition script_fails :: library where
  "script_fails =
     \<lparr>ChromeOptions = Inr (), install = Inr ''chromedriver'',
      Chrome = (\<lambda>path. Inr 7),
      execute_script = (\<lambda>drv. Inl WebDriverException), quit = (\<lambda>drv. Inr ())\<rparr>"

section \<open>Properties of the page objects\<close>





subsection \<open>Failures of awaited steps\<close>

lemma propagates_wait_until: "propagates_failures (wait_until u c w)"
  by (simp add: propagates_failures_def wait_until_def split: prod.splits option.splits)

lemma propagates_call: "propagates_failures (call f w)"
  by (simp add: propagates_failures_def call_def split: prod.splits)

lemma propagates_returns: "propagates_failures (returns x w)"
  by (simp add: propagates_failures_def returns_def)

lemma propagates_time_sleep: "propagates_failures (time_sleep drv n w)"
  by (simp add: propagates_failures_def time_sleep_def)

lemma propagates_and_then:
  assumes m: "\<And>w. propagates_failures (m w)"
    and f: "\<And>x w. propagates_failures (f x w)"
  shows "propagates_failures (and_then m f w)"
proof -
  obtain r evs w1 where run: "m w = (r, evs, w1)" by (cases "m w") auto
  show ?thesis
  proof (cases r)
    case (Inl e)
    with run m [of w] show ?thesis by (simp add: and_then_def propagates_failures_def raised_def)
  next
    case (Inr x)
    obtain r2 evs2 w2 where run2: "f x w1 = (r2, evs2, w2)" by (cases "f x w1") auto
    from run Inr m [of w]
    have quiet: "list_all (\<lambda>ev. case ev of Awaited c (Some e) \<Rightarrow> False | _ \<Rightarrow> True) evs"
      by (simp add: propagates_failures_def raised_def)
    have "list_all (\<lambda>ev. case ev of Awaited c (Some e) \<Rightarrow> raised r2 = Some e | _ \<Rightarrow> True) evs"
      using quiet by (auto simp: list_all_iff split: event.splits option.splits)
    moreover from run2 f [of x w1]
    have "list_all (\<lambda>ev. case ev of Awaited c (Some e) \<Rightarrow> raised r2 = Some e | _ \<Rightarrow> True) evs2"
      by (simp add: propagates_failures_def)
    ultimately show ?thesis
      using run Inr run2 by (simp add: and_then_def propagates_failures_def)
  qed
qed

lemmas propagates_intros =
  propagates_and_then propagates_wait_until propagates_call propagates_returns propagates_time_sleep

lemma propagates_find_element: "propagates_failures (find_element drv loc w)"
  unfolding find_element_def by (rule propagates_wait_until)

lemma propagates_click_element: "propagates_failures (click_element drv loc w)"
  unfolding click_element_def by (intro propagates_intros)

lemma propagates_type_text: "propagates_failures (type_text drv loc txt w)"
  unfolding type_text_def by (intro propagates_intros propagates_find_element)

lemma propagates_wait_for_page_load: "propagates_failures (wait_for_page_load drv w)"
  unfolding wait_for_page_load_def by (intro propagates_intros)

lemma propagates_navigate_to: "propagates_failures (navigate_to drv url w)"
  unfolding navigate_to_def by (intro propagates_intros propagates_wait_for_page_load)

lemma is_element_visible_never_raises: "raised (fst (is_element_visible drv loc w)) = None"
  by (simp add: is_element_visible_def raised_def split: prod.splits sum.splits)

lemma is_element_visible_swallows:
  assumes "Awaited c (Some e) \<in> set (fst (snd (is_element_visible drv loc w)))"
  shows "fst (is_element_visible drv loc w) = Inr False"
  using assms
  by (auto simp: is_element_visible_def and_then_def wait_until_def call_def raised_def
      split: prod.splits sum.splits)

lemma propagates_find_elements: "propagates_failures (find_elements drv loc w)"
  unfolding find_elements_def by (rule propagates_wait_until)

text \<open>
  C4, as the page classes have it. In every page-object method other than
  \<^verbatim>\<open>is_element_visible\<close> (and the three \<^verbatim>\<open>is_..._visible\<close> methods that only call
  it), an exception raised by an awaited step is the exception the method raises
  to its caller. \<^verbatim>\<open>is_element_visible\<close> never raises: when its awaited step fails, it
  returns False.
\<close>

theorem awaited_failures_reach_the_caller:
  "propagates_failures (find_element drv loc w)
   \<and> propagates_failures (find_elements drv loc w)
   \<and> propagates_failures (click_element drv loc w)
   \<and> propagates_failures (type_text drv loc txt w)
   \<and> propagates_failures (get_text drv loc w)
   \<and> propagates_failures (wait_for_page_load drv w)
   \<and> propagates_failures (google_navigate_to drv w)
   \<and> propagates_failures (google_search drv txt w)
   \<and> propagates_failures (get_search_results drv w)
   \<and> propagates_failures (click_gmail drv w)
   \<and> propagates_failures (click_images drv w)
   \<and> propagates_failures (facebook_navigate_to drv w)
   \<and> propagates_failures (enter_email drv txt w)
   \<and> propagates_failures (enter_password drv txt w)
   \<and> propagates_failures (click_login drv w)
   \<and> propagates_failures (login drv txt pw w)
   \<and> propagates_failures (click_forgot_password drv w)
   \<and> propagates_failures (click_create_account drv w)
   \<and> propagates_failures (amazon_navigate_to drv w)
   \<and> propagates_failures (search_product drv txt w)
   \<and> propagates_failures (get_product_results drv w)
   \<and> propagates_failures (click_cart drv w)
   \<and> propagates_failures (click_account drv w)
   \<and> raised (fst (is_element_visible drv loc w)) = None
   \<and> (Awaited c (Some e) \<in> set (fst (snd (is_element_visible drv loc w)))
        \<longrightarrow> fst (is_element_visible drv loc w) = Inr False)"
proof -
  have visible: "Awaited c (Some e) \<in> set (fst (snd (is_element_visible drv loc w)))
        \<longrightarrow> fst (is_element_visible drv loc w) = Inr False"
    by (blast intro: is_element_visible_swallows)
  show ?thesis
    unfolding get_text_def google_navigate_to_def google_search_def get_search_results_def
      click_gmail_def click_images_def facebook_navigate_to_def enter_email_def
      enter_password_def click_login_def login_def click_forgot_password_def
      click_create_account_def amazon_navigate_to_def search_product_def
      get_product_results_def click_cart_def click_account_def
    by (intro conjI propagates_intros propagates_find_element propagates_find_elements
        propagates_click_element propagates_type_text propagates_wait_for_page_load
        propagates_navigate_to is_element_visible_never_raises visible)
qed

theorem awaited_failures_reach_the_caller_witness:
  "click_element headings_only (NAME, ''q'') 0 =
     (Inl TimeoutException, [Awaited (element_to_be_clickable (NAME, ''q'')) (Some TimeoutException)], 0)
   \<and> propagates_failures (click_element headings_only (NAME, ''q'') 0)
   \<and> Awaited (visibility_of_element_located (NAME, ''q'')) (Some TimeoutException)
        \<in> set (fst (snd (is_element_visible headings_only (NAME, ''q'') 0)))
   \<and> fst (is_element_visible headings_only (NAME, ''q'') 0) = Inr False"
proof -
  have run: "click_element headings_only (NAME, ''q'') 0 =
     (Inl TimeoutException, [Awaited (element_to_be_clickable (NAME, ''q'')) (Some TimeoutException)], 0)"
    by (simp add: click_element_def and_then_def wait_until_def raised_def headings_only_def)
  have ev: "Awaited (visibility_of_element_located (NAME, ''q'')) (Some TimeoutException)
        \<in> set (fst (snd (is_element_visible headings_only (NAME, ''q'') 0)))"
    by (simp add: is_element_visible_def and_then_def wait_until_def raised_def headings_only_def)
  from awaited_failures_reach_the_caller [of headings_only "(NAME, ''q'')" 0 _ _
      "visibility_of_element_located (NAME, ''q'')" TimeoutException] run ev
  show ?thesis by simp
qed

text \<open>
  C4 as stated covers every page-object method. \<^verbatim>\<open>is_element_visible\<close> on a
  page where the search box never becomes visible: the wait raises
  \<^verbatim>\<open>TimeoutException\<close> and the method returns False.
\<close>

theorem swallowed_failure_counterexample:
  "is_element_visible headings_only (NAME, ''q'') 0 =
     (Inr False, [Awaited (visibility_of_element_located (NAME, ''q'')) (Some TimeoutException)], 0)
   \<and> \<not> propagates_failures (is_element_visible headings_only (NAME, ''q'') 0)"
  by (simp add: is_element_visible_def and_then_def wait_until_def raised_def headings_only_def
      propagates_failures_def)

subsection \<open>Direct sleeps\<close>

lemma sleeps_wait_until: "direct_sleeps (wait_until u c w) = []"
  by (simp add: direct_sleeps_def wait_until_def split: prod.splits)

lemma sleeps_call: "direct_sleeps (call f w) = []"
  by (simp add: direct_sleeps_def call_def split: prod.splits)

lemma sleeps_returns: "direct_sleeps (returns x w) = []"
  by (simp add: direct_sleeps_def returns_def)

lemma sleeps_and_then:
  assumes "\<And>w. direct_sleeps (m w) = []" and "\<And>x w. direct_sleeps (f x w) = []"
  shows "direct_sleeps (and_then m f w) = []"
proof -
  obtain r evs w1 where run: "m w = (r, evs, w1)" by (cases "m w") auto
  show ?thesis
  proof (cases r)
    case (Inl e)
    with run assms(1) [of w] show ?thesis by (simp add: and_then_def direct_sleeps_def)
  next
    case (Inr x)
    obtain r2 evs2 w2 where run2: "f x w1 = (r2, evs2, w2)" by (cases "f x w1") auto
    with run Inr assms(1) [of w] assms(2) [of x w1] show ?thesis
      by (simp add: and_then_def direct_sleeps_def)
  qed
qed

lemma sleeps_time_sleep:
  "direct_sleeps (time_sleep drv n w) = (if raised (fst (time_sleep drv n w)) = None then [n] else [])"
  by (simp add: direct_sleeps_def time_sleep_def raised_def)

lemma sleeps_then_sleep:
  assumes "\<And>w. direct_sleeps (m w) = []"
    and "\<And>x w. direct_sleeps (f x w) = (if raised (fst (f x w)) = None then [n] else [])"
  shows "direct_sleeps (and_then m f w) = (if raised (fst (and_then m f w)) = None then [n] else [])"
proof -
  obtain r evs w1 where run: "m w = (r, evs, w1)" by (cases "m w") auto
  show ?thesis
  proof (cases r)
    case (Inl e)
    with run assms(1) [of w] show ?thesis by (simp add: and_then_def direct_sleeps_def raised_def)
  next
    case (Inr x)
    obtain r2 evs2 w2 where run2: "f x w1 = (r2, evs2, w2)" by (cases "f x w1") auto
    with run Inr assms(1) [of w] assms(2) [of x w1] show ?thesis
      by (simp add: and_then_def direct_sleeps_def)
  qed
qed

lemmas sleeps_intros = sleeps_and_then sleeps_wait_until sleeps_call sleeps_returns

lemma sleeps_find_element: "direct_sleeps (find_element drv loc w) = []"
  unfolding find_element_def by (rule sleeps_wait_until)

lemma sleeps_click_element: "direct_sleeps (click_element drv loc w) = []"
  unfolding click_element_def by (intro sleeps_intros)

lemma sleeps_type_text: "direct_sleeps (type_text drv loc txt w) = []"
  unfolding type_text_def by (intro sleeps_intros sleeps_find_element)

lemma sleeps_is_element_visible: "direct_sleeps (is_element_visible drv loc w) = []"
proof -
  have "direct_sleeps (and_then (wait_until (until_element drv) (visibility_of_element_located loc))
             (\<lambda>el. call (is_displayed drv el)) w) = []"
    by (intro sleeps_intros)
  then show ?thesis
    by (auto simp: is_element_visible_def direct_sleeps_def split: prod.splits sum.splits)
qed

lemma sleeps_google_search:
  "direct_sleeps (google_search drv q w) = (if raised (fst (google_search drv q w)) = None then [2] else [])"
  unfolding google_search_def
  by (intro sleeps_then_sleep sleeps_type_text sleeps_click_element sleeps_time_sleep)

lemma sleeps_login:
  "direct_sleeps (login drv e p w) = (if raised (fst (login drv e p w)) = None then [2] else [])"
  unfolding login_def enter_email_def enter_password_def click_login_def
  by (intro sleeps_then_sleep sleeps_type_text sleeps_click_element sleeps_time_sleep)

lemma sleeps_find_elements: "direct_sleeps (find_elements drv loc w) = []"
  unfolding find_elements_def by (rule sleeps_wait_until)

lemma sleeps_wait_for_page_load: "direct_sleeps (wait_for_page_load drv w) = []"
  unfolding wait_for_page_load_def by (intro sleeps_intros)

lemma sleeps_navigate_to: "direct_sleeps (navigate_to drv url w) = []"
  unfolding navigate_to_def by (intro sleeps_intros sleeps_wait_for_page_load)

lemma sleeps_search_product:
  "direct_sleeps (search_product drv q w) = (if raised (fst (search_product drv q w)) = None then [2] else [])"
  unfolding search_product_def
  by (intro sleeps_then_sleep sleeps_type_text sleeps_click_element sleeps_time_sleep)

text \<open>
  C8, as the page classes have it. \<^verbatim>\<open>GooglePage.search\<close>, \<^verbatim>\<open>FacebookPage.login\<close> and
  \<^verbatim>\<open>AmazonPage.search_product\<close> call \<^verbatim>\<open>time.sleep(2)\<close> once, after their awaited
  steps have succeeded, and not at all when one of those steps raises. No other
  page-object method sleeps directly.
\<close>

theorem only_three_methods_sleep:
  "direct_sleeps (find_element drv loc w) = []
   \<and> direct_sleeps (find_elements drv loc w) = []
   \<and> direct_sleeps (click_element drv loc w) = []
   \<and> direct_sleeps (type_text drv loc txt w) = []
   \<and> direct_sleeps (get_text drv loc w) = []
   \<and> direct_sleeps (is_element_visible drv loc w) = []
   \<and> direct_sleeps (wait_for_page_load drv w) = []
   \<and> direct_sleeps (google_navigate_to drv w) = []
   \<and> direct_sleeps (get_search_results drv w) = []
   \<and> direct_sleeps (click_gmail drv w) = []
   \<and> direct_sleeps (click_images drv w) = []
   \<and> direct_sleeps (google_is_search_box_visible drv w) = []
   \<and> direct_sleeps (facebook_navigate_to drv w) = []
   \<and> direct_sleeps (enter_email drv txt w) = []
   \<and> direct_sleeps (enter_password drv txt w) = []
   \<and> direct_sleeps (click_login drv w) = []
   \<and> direct_sleeps (click_forgot_password drv w) = []
   \<and> direct_sleeps (click_create_account drv w) = []
   \<and> direct_sleeps (is_email_field_visible drv w) = []
   \<and> direct_sleeps (amazon_navigate_to drv w) = []
   \<and> direct_sleeps (get_product_results drv w) = []
   \<and> direct_sleeps (click_cart drv w) = []
   \<and> direct_sleeps (click_account drv w) = []
   \<and> direct_sleeps (amazon_is_search_box_visible drv w) = []
   \<and> direct_sleeps (google_search drv txt w)
        = (if raised (fst (google_search drv txt w)) = None then [2] else [])
   \<and> direct_sleeps (login drv txt pw w)
        = (if raised (fst (login drv txt pw w)) = None then [2] else [])
   \<and> direct_sleeps (search_product drv txt w)
        = (if raised (fst (search_product drv txt w)) = None then [2] else [])"
  unfolding get_text_def google_navigate_to_def get_search_results_def
    click_gmail_def click_images_def google_is_search_box_visible_def facebook_navigate_to_def
    enter_email_def enter_password_def click_login_def click_forgot_password_def
    click_create_account_def is_email_field_visible_def amazon_navigate_to_def
    get_product_results_def click_cart_def click_account_def amazon_is_search_box_visible_def
  by (intro conjI sleeps_google_search sleeps_search_product
      sleeps_login [unfolded enter_email_def enter_password_def click_login_def]
      sleeps_intros sleeps_find_element sleeps_find_elements
      sleeps_click_element sleeps_type_text sleeps_is_element_visible sleeps_wait_for_page_load
      sleeps_navigate_to)

theorem only_three_methods_sleep_witness:
  "direct_sleeps (login all_present ''user'' ''secret'' 0) = [2]
   \<and> direct_sleeps (login headings_only ''user'' ''secret'' 0) = []
   \<and> direct_sleeps (click_cart all_present 0) = []"
proof -
  have ok: "raised (fst (login all_present ''user'' ''secret'' 0)) = None"
    by (simp add: login_def enter_email_def enter_password_def click_login_def type_text_def
        click_element_def find_element_def and_then_def wait_until_def call_def time_sleep_def
        raised_def all_present_def)
  have failed: "raised (fst (login headings_only ''user'' ''secret'' 0)) = Some TimeoutException"
    by (simp add: login_def enter_email_def enter_password_def click_login_def type_text_def
        click_element_def find_element_def and_then_def wait_until_def call_def time_sleep_def
        raised_def headings_only_def)
  from only_three_methods_sleep [of all_present _ 0 "''user''" "''secret''"] ok
    only_three_methods_sleep [of headings_only _ 0 "''user''" "''secret''"] failed
  show ?thesis by simp
qed

text \<open>
  C8 as stated says that no page-object method sleeps directly.
  \<^verbatim>\<open>GooglePage.search\<close> in a browser where both waits succeed at once still
  suspends for two seconds.
\<close>

theorem direct_sleep_counterexample:
  "google_search all_present ''selenium'' 0 =
     (Inr (),
      [Awaited (presence_of_element_located (NAME, ''q'')) None,
       Awaited (element_to_be_clickable (NAME, ''btnK'')) None,
       Slept 2],
      2)
   \<and> direct_sleeps (google_search all_present ''selenium'' 0) = [2]"
  by (simp add: google_search_def type_text_def click_element_def find_element_def and_then_def
      wait_until_def call_def time_sleep_def raised_def all_present_def direct_sleeps_def
      google_SEARCH_BOX_def google_SEARCH_BUTTON_def)

section \<open>Properties of the custom wait conditions\<close>

text \<open>
  C6, as the condition has it. \<^verbatim>\<open>element_has_text\<close> is true exactly when
  \<^verbatim>\<open>find_element\<close> hands back an element whose \<^verbatim>\<open>value\<close> attribute contains the
  substring. It never asks how many elements the locator resolves to: its result is
  the same whatever \<^verbatim>\<open>find_elements\<close> would answer.
\<close>

theorem element_has_text_reads_one_element:
  "(element_has_text loc txt d = Inr True \<longleftrightarrow>
      (\<exists>el v. driver_find_element d loc = Inr el \<and> get_attribute d el ''value'' = Inr (Some v)
         \<and> sublist txt v))
   \<and> element_has_text loc txt (d\<lparr>driver_find_elements := others\<rparr>) = element_has_text loc txt d"
  by (auto simp: element_has_text_def split: sum.splits option.splits)

theorem element_has_text_reads_one_element_witness:
  "element_has_text (NAME, ''q'') ''Google'' two_search_boxes = Inr True
   \<and> driver_find_element two_search_boxes (NAME, ''q'') = Inr first_box
   \<and> get_attribute two_search_boxes first_box ''value'' = Inr (Some ''Google Search'')
   \<and> sublist ''Google'' ''Google Search''"
proof -
  have s: "sublist ''Google'' ''Google Search''" by code_simp
  have f: "driver_find_element two_search_boxes (NAME, ''q'') = Inr first_box"
    by (simp add: two_search_boxes_def)
  have g: "get_attribute two_search_boxes first_box ''value'' = Inr (Some ''Google Search'')"
    by (simp add: two_search_boxes_def first_box_def)
  from element_has_text_reads_one_element [of "(NAME, ''q'')" "''Google''" two_search_boxes] s f g
  show ?thesis by blast
qed

text \<open>
  C6 as stated has the condition report a failure when the locator resolves
  to several distinct elements. On a page with two search boxes the condition is
  true, decided by the one element \<^verbatim>\<open>find_element\<close> returned.
\<close>

theorem ambiguous_locator_counterexample:
  "driver_find_elements two_search_boxes (NAME, ''q'') = Inr [first_box, second_box]
   \<and> first_box \<noteq> second_box
   \<and> element_has_text (NAME, ''q'') ''Google'' two_search_boxes = Inr True"
proof -
  have "sublist ''Google'' ''Google Search''" by code_simp
  then show ?thesis
    by (simp add: two_search_boxes_def first_box_def second_box_def element_has_text_def)
qed

section \<open>Properties of the wait engine\<close>

text \<open>One unfolding of the loop for each way a tick can end.\<close>

lemma poll_loop_satisfied:
  assumes "snd pf (remote_at sim now) = Satisfied v"
  shows "poll_loop sim pf spec start n now =
           Some (Inr \<lparr>outcome = Satisfied v, elapsed = now - start, attempt_count = n + 1\<rparr>, now)"
  by (subst poll_loop.simps) (simp add: assms Let_def)

lemma poll_loop_fatal:
  assumes "snd pf (remote_at sim now) = Failed k" and "k \<notin> ignored_error_kinds spec"
  shows "poll_loop sim pf spec start n now = Some (Inl (Propagated k), now)"
  by (subst poll_loop.simps) (simp add: assms Let_def)


lemma poll_loop_retry:
  assumes "retryable spec (snd pf (remote_at sim now))" and "\<not> cancelled_at sim now"
    and "now - start \<le> timeout spec"
  shows "poll_loop sim pf spec start n now =
           poll_loop sim pf spec start (n + 1) (now + poll_interval spec)"
  using assms
  by (subst poll_loop.simps)
     (auto simp: retryable_def Let_def split: condition_outcome.splits)

lemma poll_loop_skip:
  assumes "\<forall>j<k. retryable spec (snd pf (remote_at sim (now + j * poll_interval spec)))
             \<and> \<not> cancelled_at sim (now + j * poll_interval spec)
             \<and> now + j * poll_interval spec - start \<le> timeout spec"
  shows "poll_loop sim pf spec start n now =
           poll_loop sim pf spec start (n + k) (now + k * poll_interval spec)"
  using assms
proof (induction k arbitrary: n now)
  case 0
  then show ?case by simp
next
  case (Suc k)
  have first: "retryable spec (snd pf (remote_at sim now))" "\<not> cancelled_at sim now"
    "now - start \<le> timeout spec"
    using Suc.prems by (auto dest: spec [of _ 0])
  have rest: "\<forall>j<k. retryable spec (snd pf (remote_at sim (now + poll_interval spec + j * poll_interval spec)))
             \<and> \<not> cancelled_at sim (now + poll_interval spec + j * poll_interval spec)
             \<and> now + poll_interval spec + j * poll_interval spec - start \<le> timeout spec"
  proof (intro allI impI)
    fix j assume "j < k"
    then have "Suc j < Suc k" by simp
    with Suc.prems show "retryable spec (snd pf (remote_at sim (now + poll_interval spec + j * poll_interval spec)))
             \<and> \<not> cancelled_at sim (now + poll_interval spec + j * poll_interval spec)
             \<and> now + poll_interval spec + j * poll_interval spec - start \<le> timeout spec"
      by (metis add.assoc mult_Suc)
  qed
  have "poll_loop sim pf spec start n now =
          poll_loop sim pf spec start (n + 1) (now + poll_interval spec)"
    by (rule poll_loop_retry [OF first])
  also have "\<dots> = poll_loop sim pf spec start (n + 1 + k) (now + poll_interval spec + k * poll_interval spec)"
    by (rule Suc.IH [OF rest])
  finally show ?case by (simp add: add.assoc)
qed




text \<open>
  C2. With a positive poll interval, a predicate that is retryable before t and
  Satisfied from t on, t within the timeout, and no cancellation before t,
  \<^verbatim>\<open>awaitCondition\<close> returns a successful result whose elapsed time is at least t
  and less than t + P; the attempt count is the number of ticks up to that time.
\<close>

theorem success_within_one_interval:
  assumes "0 < poll_interval spec"
    and "t \<le> timeout spec"
    and "\<forall>u<t. retryable spec (snd pf (remote_at sim (start + u))) \<and> \<not> cancelled_at sim (start + u)"
    and "\<forall>u\<ge>t. is_satisfied (snd pf (remote_at sim (start + u)))"
  shows "\<exists>r. awaitCondition sim pf spec start = Some (Inr r, start + elapsed r)
           \<and> is_satisfied (outcome r)
           \<and> t \<le> elapsed r
           \<and> elapsed r < t + poll_interval spec
           \<and> attempt_count r = elapsed r div poll_interval spec + 1"
proof -
  define P where "P = poll_interval spec"
  define K where "K = (t + P - 1) div P"
  have P: "0 < P" using assms(1) by (simp add: P_def)
  have before: "j * P < t" if "j < K" for j
  proof -
    from that have "Suc j \<le> (t + P - 1) div P" by (simp add: K_def)
    then have "Suc j * P \<le> t + P - 1" using P by (simp add: less_eq_div_iff_mult_less_eq)
    then show ?thesis using P by simp
  qed
  have reach: "t \<le> K * P"
  proof -
    have "t + P - 1 < (K + 1) * P"
      unfolding K_def using P by (metis Suc_eq_plus1 dividend_less_div_times mult.commute add.commute mult_Suc)
    then show ?thesis using P by simp
  qed
  have bound: "K * P < t + P"
  proof -
    have "K * P \<le> t + P - 1" by (simp add: K_def)
    then show ?thesis using P by linarith
  qed
  from reach assms(4) have "is_satisfied (snd pf (remote_at sim (start + K * P)))"
    by blast
  then obtain v where v: "snd pf (remote_at sim (start + K * P)) = Satisfied v"
    by (cases "snd pf (remote_at sim (start + K * P))") (simp_all add: is_satisfied_def)
  have "poll_loop sim pf spec start 0 start = poll_loop sim pf spec start (0 + K) (start + K * poll_interval spec)"
  proof (rule poll_loop_skip, intro allI impI)
    fix j assume "j < K"
    then have "j * P < t" by (rule before)
    with assms(2,3) show "retryable spec (snd pf (remote_at sim (start + j * poll_interval spec)))
       \<and> \<not> cancelled_at sim (start + j * poll_interval spec)
       \<and> start + j * poll_interval spec - start \<le> timeout spec"
      by (simp add: P_def)
  qed
  also have "\<dots> = Some (Inr \<lparr>outcome = Satisfied v, elapsed = start + K * poll_interval spec - start,
                 attempt_count = 0 + K + 1\<rparr>, start + K * poll_interval spec)"
    by (rule poll_loop_satisfied) (use v in \<open>simp add: P_def\<close>)
  finally have "awaitCondition sim pf spec start =
      Some (Inr \<lparr>outcome = Satisfied v, elapsed = K * P, attempt_count = K + 1\<rparr>, start + K * P)"
    by (simp add: awaitCondition_def P_def)
  with reach bound P show ?thesis
    by (simp add: is_satisfied_def P_def)
qed

theorem success_within_one_interval_witness:
  "\<exists>r. awaitCondition (appears_at 600) (''presence'', presence (NAME, ''q'')) (default_spec 2000 250) 0
          = Some (Inr r, elapsed r)
       \<and> is_satisfied (outcome r) \<and> 600 \<le> elapsed r \<and> elapsed r \<le> 850
       \<and> 2 \<le> attempt_count r \<and> attempt_count r \<le> 4"
proof -
  from success_within_one_interval [where spec = "default_spec 2000 250" and sim = "appears_at 600"
      and pf = "(''presence'', presence (NAME, ''q''))" and start = 0 and t = 600]
  obtain r where r: "awaitCondition (appears_at 600) (''presence'', presence (NAME, ''q''))
        (default_spec 2000 250) 0 = Some (Inr r, elapsed r)"
      "is_satisfied (outcome r)" "600 \<le> elapsed r" "elapsed r < 850"
      "attempt_count r = elapsed r div 250 + 1"
    by (auto simp: default_spec_def appears_at_def presence_def retryable_def is_satisfied_def)
  have "2 \<le> elapsed r div 250" using r(3) by linarith
  moreover have "elapsed r div 250 \<le> 3" using r(4) by linarith
  ultimately show ?thesis using r by auto
qed

text \<open>
  C3. When the predicate reports Failed with a kind outside the ignorable set on
  the tick after k retryable ticks, \<^verbatim>\<open>awaitCondition\<close> returns that error with the
  clock still at the start of that tick: no further poll interval is slept and the
  rest of the timeout is not waited out. On attempt 1 (k = 0) the clock has not
  moved at all.
\<close>

theorem infrastructure_error_propagates_at_once:
  assumes "\<forall>j<k. retryable spec (snd pf (remote_at sim (start + j * poll_interval spec)))
             \<and> \<not> cancelled_at sim (start + j * poll_interval spec)
             \<and> j * poll_interval spec \<le> timeout spec"
    and "snd pf (remote_at sim (start + k * poll_interval spec)) = Failed kind"
    and "kind \<notin> ignored_error_kinds spec"
  shows "awaitCondition sim pf spec start = Some (Inl (Propagated kind), start + k * poll_interval spec)"
proof -
  have "poll_loop sim pf spec start 0 start = poll_loop sim pf spec start (0 + k) (start + k * poll_interval spec)"
    by (rule poll_loop_skip) (use assms(1) in simp)
  also have "\<dots> = Some (Inl (Propagated kind), start + k * poll_interval spec)"
    by (rule poll_loop_fatal [OF assms(2,3)])
  finally show ?thesis by (simp add: awaitCondition_def)
qed

theorem infrastructure_error_propagates_at_once_witness:
  "awaitCondition (appears_at 500) (''lost'', lost_once_present) (default_spec 2000 250) 0
     = Some (Inl (Propagated SessionLost), 500)
   \<and> awaitCondition never_appears (''lost'', session_lost) (default_spec 2000 250) 0
     = Some (Inl (Propagated SessionLost), 0)"
proof -
  have "\<forall>j<2. retryable (default_spec 2000 250)
            (snd (''lost'', lost_once_present)
               (remote_at (appears_at 500) (0 + j * poll_interval (default_spec 2000 250))))
          \<and> \<not> cancelled_at (appears_at 500) (0 + j * poll_interval (default_spec 2000 250))
          \<and> j * poll_interval (default_spec 2000 250) \<le> timeout (default_spec 2000 250)"
    by (auto simp: less_Suc_eq numeral_2_eq_2 default_spec_def appears_at_def
        lost_once_present_def retryable_def)
  from infrastructure_error_propagates_at_once [OF this, of SessionLost]
  have first: "awaitCondition (appears_at 500) (''lost'', lost_once_present) (default_spec 2000 250) 0
     = Some (Inl (Propagated SessionLost), 500)"
    by (simp add: default_spec_def appears_at_def lost_once_present_def)
  from infrastructure_error_propagates_at_once [where k = 0 and kind = SessionLost
      and spec = "default_spec 2000 250" and sim = never_appears
      and pf = "(''lost'', session_lost)" and start = 0]
  have second: "awaitCondition never_appears (''lost'', session_lost) (default_spec 2000 250) 0
     = Some (Inl (Propagated SessionLost), 0)"
    by (simp add: default_spec_def session_lost_def)
  from first second show ?thesis by simp
qed

subsection \<open>Composition\<close>

lemma allOf_satisfied_iff: "is_satisfied (allOf ps s) \<longleftrightarrow> (\<forall>p \<in> set ps. is_satisfied (p s))"
  by (induction ps) (auto simp: is_satisfied_def split: condition_outcome.splits)

lemma enabled_and_visible_same_poll:
  "element_is_enabled_and_visible loc d = Inr True \<longleftrightarrow>
     (\<exists>el. driver_find_element d loc = Inr el \<and> is_enabled d el = Inr True
        \<and> element_is_displayed d el = Inr True)"
  by (auto simp: element_is_enabled_and_visible_def split: sum.splits)

text \<open>
  C5. For all child predicates p1 and p2 and every tick k, \<^verbatim>\<open>allOf\<close> of the two is
  Satisfied on the remote state of tick k exactly when both children are Satisfied
  on that same state; when p1 was Satisfied on an earlier tick j and p2 is not
  Satisfied on tick k, the composition is not Satisfied on tick k. The source's own
  conjunction, \<^verbatim>\<open>element_is_enabled_and_visible\<close>, is true on one poll exactly when
  the element is found, enabled and displayed on that poll.
\<close>

theorem allOf_same_tick:
  "(is_satisfied (allOf [p1, p2] (remote_at sim k)) \<longleftrightarrow>
      is_satisfied (p1 (remote_at sim k)) \<and> is_satisfied (p2 (remote_at sim k)))
   \<and> (j < k \<and> is_satisfied (p1 (remote_at sim j)) \<and> \<not> is_satisfied (p2 (remote_at sim k))
        \<longrightarrow> \<not> is_satisfied (allOf [p1, p2] (remote_at sim k)))
   \<and> (element_is_enabled_and_visible loc d = Inr True \<longleftrightarrow>
        (\<exists>el. driver_find_element d loc = Inr el \<and> is_enabled d el = Inr True
           \<and> element_is_displayed d el = Inr True))"
  by (simp add: allOf_satisfied_iff enabled_and_visible_same_poll del: allOf.simps)

theorem allOf_same_tick_witness:
  "(0::nat) < 1
   \<and> is_satisfied (presence (NAME, ''q'') (remote_at box_gone_before_button 0))
   \<and> \<not> is_satisfied (presence (NAME, ''btnK'') (remote_at box_gone_before_button 1))
   \<and> \<not> is_satisfied (allOf [presence (NAME, ''q''), presence (NAME, ''btnK'')]
            (remote_at box_gone_before_button 1))
   \<and> allOf [presence (NAME, ''q''), presence (NAME, ''btnK'')] (remote_at box_gone_before_button 2)
       = Pending"
proof -
  have a: "is_satisfied (presence (NAME, ''q'') (remote_at box_gone_before_button 0))"
    by (simp add: is_satisfied_def presence_def box_gone_before_button_def)
  have b: "\<not> is_satisfied (presence (NAME, ''btnK'') (remote_at box_gone_before_button 1))"
    by (simp add: is_satisfied_def presence_def box_gone_before_button_def)
  have c: "allOf [presence (NAME, ''q''), presence (NAME, ''btnK'')] (remote_at box_gone_before_button 2)
       = Pending"
    by (simp add: presence_def box_gone_before_button_def)
  from allOf_same_tick [of "presence (NAME, ''q'')" "presence (NAME, ''btnK'')"
      box_gone_before_button 1 0] a b c
  show ?thesis by simp
qed

section \<open>Properties of the implicit wait policy\<close>

lemma retry_query_absent:
  "\<forall>u\<le>d. matches_at (now + u) = [] \<Longrightarrow> retry_query matches_at d now = ([], now + d)"
proof (induction d arbitrary: now)
  case 0
  then show ?case by simp
next
  case (Suc d)
  from Suc.prems have here: "matches_at now = []" by (metis add.right_neutral le0)
  have "\<forall>u\<le>d. matches_at (Suc now + u) = []"
  proof (intro allI impI)
    fix u assume "u \<le> d"
    then have "Suc u \<le> Suc d" by simp
    with Suc.prems have "matches_at (now + Suc u) = []" by blast
    then show "matches_at (Suc now + u) = []" by simp
  qed
  from Suc.IH [OF this] here show ?case by simp
qed

text \<open>
  C7. A session holds one implicit-wait duration. Setting a new duration replaces
  the previous one: queries behave as if only the latest had ever been set, and a
  query for an absent target reports nothing found after exactly the latest
  duration. After setting zero, a query for an absent target reports nothing found
  at once, with the clock unchanged.
\<close>

theorem implicit_wait_replaced_by_latest:
  "implicit_wait (implicitly_wait d2 (implicitly_wait d1 s)) = d2
   \<and> findAll_with_policy (implicitly_wait d2 (implicitly_wait d1 s)) matches_at now
       = findAll_with_policy (implicitly_wait d2 s) matches_at now
   \<and> ((\<forall>u\<le>d2. matches_at (now + u) = []) \<longrightarrow>
        findAll_with_policy (implicitly_wait d2 (implicitly_wait d1 s)) matches_at now = ([], now + d2))
   \<and> (matches_at now = [] \<longrightarrow>
        findAll_with_policy (implicitly_wait 0 (implicitly_wait d1 s)) matches_at now = ([], now))"
  by (simp add: implicitly_wait_def findAll_with_policy_def retry_query_absent)

theorem implicit_wait_replaced_by_latest_witness:
  "findAll_with_policy (implicitly_wait 0 (implicitly_wait 10 \<lparr>implicit_wait = 0\<rparr>)) (shows_up_at 5) 0
     = ([], 0)
   \<and> findAll_with_policy (implicitly_wait 2 (implicitly_wait 10 \<lparr>implicit_wait = 0\<rparr>)) (shows_up_at 5) 0
     = ([], 2)
   \<and> findAll_with_policy (implicitly_wait 10 \<lparr>implicit_wait = 0\<rparr>) (shows_up_at 5) 0
     = ([\<lparr>handle = 1, text_attr = ''''\<rparr>], 5)"
proof -
  have late: "findAll_with_policy (implicitly_wait 10 \<lparr>implicit_wait = 0\<rparr>) (shows_up_at 5) 0
     = ([\<lparr>handle = 1, text_attr = ''''\<rparr>], 5)"
    by (simp add: findAll_with_policy_def implicitly_wait_def shows_up_at_def numeral_nat)
  have absent: "\<forall>u\<le>2. shows_up_at 5 (0 + u) = []"
    by (simp add: shows_up_at_def)
  from implicit_wait_replaced_by_latest [of 2 10 "\<lparr>implicit_wait = 0\<rparr>" "shows_up_at 5" 0] absent
  have "findAll_with_policy (implicitly_wait 2 (implicitly_wait 10 \<lparr>implicit_wait = 0\<rparr>)) (shows_up_at 5) 0
     = ([], 0 + 2)"
    by blast
  then have two: "findAll_with_policy (implicitly_wait 2 (implicitly_wait 10 \<lparr>implicit_wait = 0\<rparr>)) (shows_up_at 5) 0
     = ([], 2)"
    by simp
  have "shows_up_at 5 0 = []" by (simp add: shows_up_at_def)
  with implicit_wait_replaced_by_latest [of 0 10 "\<lparr>implicit_wait = 0\<rparr>" "shows_up_at 5" 0]
  have zero: "findAll_with_policy (implicitly_wait 0 (implicitly_wait 10 \<lparr>implicit_wait = 0\<rparr>)) (shows_up_at 5) 0
     = ([], 0)"
    by blast
  from zero two late show ?thesis by simp
qed

section \<open>Properties of TestBase\<close>

lemma setup_method_driver:
  assumes "setup_method lib self0 = (r, self)" and "self0 ''driver'' = None"
  shows "(self ''driver'' = None \<and> r \<noteq> Inr ()
            \<and> ((\<exists>e. ChromeOptions lib = Inl e) \<or> (\<exists>e. install lib = Inl e)
                 \<or> (\<exists>e p. install lib = Inr p \<and> Chrome lib p = Inl e)))
         \<or> (\<exists>p drv. install lib = Inr p \<and> Chrome lib p = Inr drv \<and> ChromeOptions lib = Inr ()
               \<and> self ''driver'' = Some (WebDriver drv))"
proof (cases "ChromeOptions lib")
  case (Inl e)
  with assms have "self ''driver'' = None \<and> r \<noteq> Inr ()"
    by (auto simp: setup_method_def)
  with Inl show ?thesis by blast
next
  case options: (Inr u)
  show ?thesis
  proof (cases "install lib")
    case (Inl e)
    with assms options have "self ''driver'' = None \<and> r \<noteq> Inr ()"
      by (auto simp: setup_method_def)
    with Inl show ?thesis by blast
  next
    case path: (Inr p)
    show ?thesis
    proof (cases "Chrome lib p")
      case (Inl e)
      with assms options path have "self ''driver'' = None \<and> r \<noteq> Inr ()"
        by (auto simp: setup_method_def)
      with Inl path show ?thesis by blast
    next
      case (Inr drv)
      with assms options path show ?thesis
        by (auto simp: setup_method_def Let_def split: sum.splits)
    qed
  qed
qed

text \<open>
  C9. After \<^verbatim>\<open>setup_method\<close> on an instance with no \<^verbatim>\<open>driver\<close> attribute, however
  setup ended, the attribute is either still absent or holds the driver that was
  created. \<^verbatim>\<open>teardown_method\<close> quits that driver when it is there and otherwise
  returns normally without quitting anything; in particular it returns normally
  after a setup that failed before the driver was created. The only exception
  teardown can raise is one raised by \<^verbatim>\<open>driver.quit()\<close> itself, so it raises no
  attribute error of its own.
\<close>

theorem teardown_after_setup:
  assumes "setup_method lib self0 = (r, self)" and "self0 ''driver'' = None"
  shows "(self ''driver'' = None \<longrightarrow> teardown_method lib self = (Inr (), []))
       \<and> (\<forall>drv. self ''driver'' = Some (WebDriver drv) \<longrightarrow>
             teardown_method lib self = (quit lib drv, [drv]))
       \<and> (self ''driver'' = None \<or> (\<exists>drv. self ''driver'' = Some (WebDriver drv)))
       \<and> ((\<exists>e. ChromeOptions lib = Inl e) \<or> (\<exists>e. install lib = Inl e)
            \<or> (\<exists>e p. install lib = Inr p \<and> Chrome lib p = Inl e)
           \<longrightarrow> teardown_method lib self = (Inr (), []))
       \<and> (fst (teardown_method lib self) = Inl AttributeError \<longrightarrow>
            (\<exists>drv. quit lib drv = Inl AttributeError))"
proof -
  have absent: "teardown_method lib self = (Inr (), [])" if "self ''driver'' = None"
    using that by (simp add: teardown_method_def hasattr_def)
  have present: "teardown_method lib self = (quit lib drv, [drv])"
    if "self ''driver'' = Some (WebDriver drv)" for drv
    using that by (simp add: teardown_method_def hasattr_def getattr_def call_quit_def)
  from setup_method_driver [OF assms]
  show ?thesis
    using absent present by (elim disjE conjE exE) auto
qed

theorem teardown_after_setup_witness:
  "setup_method no_chrome Map.empty = (Inl WebDriverException, Map.empty)
   \<and> teardown_method no_chrome Map.empty = (Inr (), [])
   \<and> setup_method script_fails Map.empty
       = (Inl WebDriverException, [''driver'' \<mapsto> WebDriver 7])
   \<and> teardown_method script_fails [''driver'' \<mapsto> WebDriver 7] = (Inr (), [7])"
proof -
  have s: "setup_method no_chrome Map.empty = (Inl WebDriverException, Map.empty)"
    by (simp add: setup_method_def no_chrome_def)
  have t: "setup_method script_fails Map.empty
       = (Inl WebDriverException, [''driver'' \<mapsto> WebDriver 7])"
    by (simp add: setup_method_def script_fails_def)
  have q: "quit script_fails 7 = Inr ()"
    by (simp add: script_fails_def)
  from teardown_after_setup [OF s] teardown_after_setup [OF t] s t q
  show ?thesis by simp
qed

end
